theory Spec2Isabelle
  imports Main "HOL-Library.Word"
begin

section \<open>The tally light's control loop (tally/ESP32-ArduinoIDE-WebUI.ino)\<close>

text \<open>
  The sketch runs on an ESP32: \<open>int\<close> and \<open>long\<close> are 32 bits wide, \<open>unsigned long\<close>
  is a 32-bit word, \<open>uint8_t\<close> an 8-bit word. \<open>micros()\<close> and \<open>millis()\<close> are hardware
  clocks; every reading the code takes is an input of the model.
\<close>

unbundle bit_operations_syntax

type_synonym u32 = "32 word"
type_synonym u8 = "8 word"

subsection \<open>Observable effects and the device state\<close>

text \<open>
  What the sketch does to the outside world, in the order it does it: a line on the serial
  port, a datagram to the hub, a blocking \<open>delay(ms)\<close>, \<open>strip.show()\<close> with the pixel
  buffer it flushes, and \<open>WiFi.reconnect()\<close>.
\<close>

datatype event =
    SerialLine string
  | UdpSend string
  | Hold u32
  | StripShow "u32 list"
  | WifiReconnect

text \<open>
  The globals of the sketch that the control loop reads or writes. \<open>strip\<close> is the pixel
  buffer of the \<open>Adafruit_NeoPixel\<close> object, one packed \<open>0x00RRGGBB\<close> colour per pixel;
  \<open>trace\<close> collects the effects.
\<close>

record tally =
  deviceName :: string
  ledCount :: int
  strip :: "u32 list"
  timeLastPackageReceived :: u32
  lastStatus :: string
  trace :: "event list"

definition emit :: "event \<Rightarrow> tally \<Rightarrow> tally" where
  "emit e s = s\<lparr>trace := trace s @ [e]\<rparr>"

text \<open>The globals as their initialisers leave them, with a strip of 16 dark pixels.\<close>

definition boot :: tally where
  "boot = \<lparr>deviceName = ''device-name'', ledCount = 16, strip = replicate 16 0,
     timeLastPackageReceived = 0, lastStatus = [], trace = []\<rparr>"

subsection \<open>Logging\<close>

text \<open>\<open>logMessage\<close> prints the level, a colon and the message as one line.\<close>

definition logMessage :: "string \<Rightarrow> string \<Rightarrow> tally \<Rightarrow> tally" where
  "logMessage level message s = emit (SerialLine (level @ '': '' @ message)) s"

definition logMessageOnce :: "string \<Rightarrow> tally \<Rightarrow> tally" where
  "logMessageOnce message s =
     (if lastStatus s \<noteq> message
      then (emit (SerialLine message) s)\<lparr>lastStatus := message\<rparr>
      else s)"

subsection \<open>The LED strip\<close>

text \<open>
  \<open>Adafruit_NeoPixel::Color\<close> takes three \<open>uint8_t\<close> and packs them
  (\<open>r << 16 | g << 8 | b\<close>);
  \<open>setPixelColor\<close> ignores an index outside the strip. The \<open>int\<close> arguments of
  \<open>updateLEDs\<close> are converted to \<open>uint8_t\<close> at the call, which keeps their low byte.
\<close>

definition Color :: "u8 \<Rightarrow> u8 \<Rightarrow> u8 \<Rightarrow> u32" where
  "Color r g b = push_bit 16 (ucast r) OR push_bit 8 (ucast g) OR ucast b"

definition setPixelColor :: "nat \<Rightarrow> u32 \<Rightarrow> u32 list \<Rightarrow> u32 list" where
  "setPixelColor n c px = (if n < length px then px[n := c] else px)"

function updateLEDs_loop :: "int \<Rightarrow> int \<Rightarrow> u32 \<Rightarrow> u32 list \<Rightarrow> u32 list" where
  "updateLEDs_loop i n c px =
     (if i < n then updateLEDs_loop (i + 1) n c (setPixelColor (nat i) c px) else px)"
  by pat_completeness auto
termination
  by (relation "measure (\<lambda>(i, n, c, px). nat (n - i))") auto

definition updateLEDs :: "int \<Rightarrow> int \<Rightarrow> int \<Rightarrow> tally \<Rightarrow> tally" where
  "updateLEDs r g b s =
     (let px = updateLEDs_loop 0 (ledCount s)
                 (Color (word_of_int r) (word_of_int g) (word_of_int b)) (strip s)
      in emit (StripShow px) (s\<lparr>strip := px\<rparr>))"

subsection \<open>The watchdog's clock\<close>

text \<open>
  \<open>diffMicroSeconds\<close> reads \<open>micros()\<close> itself; the reading is the first argument here.
  The literal \<open>4294967295\<close> does not fit \<open>long\<close>, so the sum of the wrapped branch is
  computed in 64 bits and cut to 32 bits by the return.
\<close>

definition diffMicroSeconds :: "u32 \<Rightarrow> u32 \<Rightarrow> u32" where
  "diffMicroSeconds now time =
     (if now < time then word_of_int (uint now + (4294967295 - uint time))
      else now - time)"

subsection \<open>The command scanner\<close>

text \<open>
  \<open>handleReceivedMessage\<close> reads its eight locals with
  \<open>sscanf(data, "O%d/%d/%d S%d/%d/%d 0x%x %d", ...)\<close>. \<open>sscanf\<close> belongs to the C
  library, not to the sketch; it is modelled here as ISO C describes it (7.21.6.2): the
  format is a list of directives run in order against the input, an ordinary character
  must be the next input character, white space in the format skips any white space of
  the input, a conversion skips white space, reads the longest input that is a prefix of
  a number and stores its value, and the first directive that fails ends the scan with
  the later locals untouched. A value too large for the type is undefined in ISO C; the
  model follows \<open>strtol\<close> and \<open>strtoul\<close>, which clamp it.
\<close>

type_synonym i32 = "32 word"

datatype directive = Lit char | Space | ConvD | ConvX

definition isspace :: "char \<Rightarrow> bool" where
  "isspace c = (c = CHR '' '' \<or> (9 \<le> (of_char c :: nat) \<and> (of_char c :: nat) \<le> 13))"

definition isdigit :: "char \<Rightarrow> bool" where
  "isdigit c = (48 \<le> (of_char c :: nat) \<and> (of_char c :: nat) \<le> 57)"

definition isxdigit :: "char \<Rightarrow> bool" where
  "isxdigit c =
     (isdigit c \<or> (97 \<le> (of_char c :: nat) \<and> (of_char c :: nat) \<le> 102)
      \<or> (65 \<le> (of_char c :: nat) \<and> (of_char c :: nat) \<le> 70))"

definition digit_val :: "char \<Rightarrow> int" where
  "digit_val c =
     (if isdigit c then int (of_char c) - 48
      else if 97 \<le> (of_char c :: nat) then int (of_char c) - 87
      else int (of_char c) - 55)"

definition digits_value :: "int \<Rightarrow> string \<Rightarrow> int" where
  "digits_value base ds = foldl (\<lambda>a c. a * base + digit_val c) 0 ds"

text \<open>The value of a sign and a magnitude as \<open>strtol\<close> and \<open>strtoul\<close> return it.\<close>

definition strtol_value :: "bool \<Rightarrow> int \<Rightarrow> i32" where
  "strtol_value neg m =
     word_of_int (if neg then max (- 2147483648) (- m) else min 2147483647 m)"

definition strtoul_value :: "bool \<Rightarrow> int \<Rightarrow> u32" where
  "strtoul_value neg m =
     (if 4294967295 < m then 4294967295 else if neg then word_of_int (- m) else word_of_int m)"

fun strip_sign :: "string \<Rightarrow> bool \<times> string" where
  "strip_sign [] = (False, [])"
| "strip_sign (c # cs) =
     (if c = CHR ''-'' then (True, cs)
      else if c = CHR ''+'' then (False, cs)
      else (False, c # cs))"

text \<open>
  \<open>%x\<close> accepts the prefix \<open>0x\<close> of \<open>strtoul\<close>; a prefix with no hexadecimal digit
  after it is read and is not a number, so the conversion fails.
\<close>

fun hex_prefix :: "string \<Rightarrow> string option" where
  "hex_prefix (a # b # cs) =
     (if a = CHR ''0'' \<and> (b = CHR ''x'' \<or> b = CHR ''X'')
      then (case cs of [] \<Rightarrow> None | h # _ \<Rightarrow> if isxdigit h then Some cs else None)
      else Some (a # b # cs))"
| "hex_prefix t = Some t"

definition conv_d :: "string \<Rightarrow> (i32 \<times> string) option" where
  "conv_d s =
     (case strip_sign (dropWhile isspace s) of
        (neg, t) \<Rightarrow>
          (if takeWhile isdigit t = [] then None
           else Some (strtol_value neg (digits_value 10 (takeWhile isdigit t)),
                      dropWhile isdigit t)))"

definition conv_x :: "string \<Rightarrow> (i32 \<times> string) option" where
  "conv_x s =
     (case strip_sign (dropWhile isspace s) of
        (neg, t) \<Rightarrow>
          (case hex_prefix t of
             None \<Rightarrow> None
           | Some u \<Rightarrow>
               (if takeWhile isxdigit u = [] then None
                else Some (strtoul_value neg (digits_value 16 (takeWhile isxdigit u)),
                           dropWhile isxdigit u))))"

text \<open>The values the scan stores, in the order of the conversions that succeeded.\<close>

fun scan :: "directive list \<Rightarrow> string \<Rightarrow> i32 list" where
  "scan [] s = []"
| "scan (Lit c # fs) s =
     (case s of [] \<Rightarrow> [] | x # xs \<Rightarrow> if x = c then scan fs xs else [])"
| "scan (Space # fs) s = scan fs (dropWhile isspace s)"
| "scan (ConvD # fs) s =
     (case conv_d s of None \<Rightarrow> [] | Some (v, r) \<Rightarrow> v # scan fs r)"
| "scan (ConvX # fs) s =
     (case conv_x s of None \<Rightarrow> [] | Some (v, r) \<Rightarrow> v # scan fs r)"

definition command_format :: "directive list" where
  "command_format =
     [Lit (CHR ''O''), ConvD, Lit (CHR ''/''), ConvD, Lit (CHR ''/''), ConvD, Space,
      Lit (CHR ''S''), ConvD, Lit (CHR ''/''), ConvD, Lit (CHR ''/''), ConvD, Space,
      Lit (CHR ''0''), Lit (CHR ''x''), ConvX, Space, ConvD]"

text \<open>
  The locals of \<open>handleReceivedMessage\<close>. They are declared without initialisers: a
  local the scan does not reach keeps the indeterminate value it started with, which is
  an argument of the model.
\<close>

record command_vars =
  opR :: i32
  opG :: i32
  opB :: i32
  stR :: i32
  stG :: i32
  stB :: i32
  patternNumber :: i32
  duration :: i32

definition stored :: "i32 list \<Rightarrow> nat \<Rightarrow> i32 \<Rightarrow> i32" where
  "stored vs k old = (if k < length vs then vs ! k else old)"

definition sscanf_command :: "string \<Rightarrow> command_vars \<Rightarrow> command_vars" where
  "sscanf_command data uninit =
     (let vs = scan command_format data in
      \<lparr>opR = stored vs 0 (opR uninit), opG = stored vs 1 (opG uninit),
       opB = stored vs 2 (opB uninit), stR = stored vs 3 (stR uninit),
       stG = stored vs 4 (stG uninit), stB = stored vs 5 (stB uninit),
       patternNumber = stored vs 6 (patternNumber uninit),
       duration = stored vs 7 (duration uninit)\<rparr>)"

text \<open>The number of locals the scan assigned: what \<open>sscanf\<close> returns and the sketch drops.\<close>

definition sscanf_count :: "string \<Rightarrow> nat" where
  "sscanf_count data = length (scan command_format data)"

subsection \<open>Handling a command\<close>

text \<open>
  \<open>now\<close> is the reading of \<open>micros()\<close> at the top of the function. \<open>duration * 1000\<close>
  is a product of \<open>int\<close>, passed to \<open>delay(uint32_t)\<close>: the low 32 bits of the product.
\<close>

definition delay :: "u32 \<Rightarrow> tally \<Rightarrow> tally" where
  "delay ms s = emit (Hold ms) s"

definition handleReceivedMessage :: "string \<Rightarrow> u32 \<Rightarrow> command_vars \<Rightarrow> tally \<Rightarrow> tally" where
  "handleReceivedMessage data now uninit s =
     (let v = sscanf_command data uninit;
          s1 = s\<lparr>timeLastPackageReceived := now\<rparr>;
          s2 = (if 25 < length data
                then delay (duration v * 1000)
                       (updateLEDs (sint (opR v)) (sint (opG v)) (sint (opB v)) s1)
                else updateLEDs (sint (opR v)) (sint (opG v)) (sint (opB v)) s1)
      in logMessage ''INFO'' data s2)"

subsection \<open>The heartbeat\<close>

text \<open>
  \<open>snprintf(buffer, 128, "tally-ho \"%s\"", deviceName)\<close> keeps at most 127 characters.
  \<open>wifi\<close> is \<open>WiFi.status() == WL_CONNECTED\<close> as \<open>sendTallyStatus\<close> reads it.
\<close>

definition tally_ho :: "string \<Rightarrow> string" where
  "tally_ho name = take 127 (''tally-ho '' @ [CHR 0x22] @ name @ [CHR 0x22])"

definition sendTallyStatus :: "bool \<Rightarrow> tally \<Rightarrow> tally" where
  "sendTallyStatus wifi s =
     (if wifi
      then logMessageOnce ''Sent status to hub'' (emit (UdpSend (tally_ho (deviceName s))) s)
      else logMessageOnce ''Failed to send status, not connected to WiFi'' s)"

subsection \<open>One iteration of \<open>loop\<close>\<close>

text \<open>
  Everything an iteration reads from outside: the three readings of the WiFi status (in
  \<open>checkWiFiConnection\<close>, in \<open>loop\<close> and in \<open>sendTallyStatus\<close>), the datagram
  \<open>udp.parsePacket()\<close> found if any, the clock readings in \<open>handleReceivedMessage\<close>,
  in \<open>diffMicroSeconds\<close> and in the heartbeat test, the indeterminate start values
  of the command locals, and the reset button.
\<close>

record loop_input =
  wifi_check :: bool
  wifi_loop :: bool
  wifi_send :: bool
  datagram :: "string option"
  micros_rx :: u32
  uninit_vars :: command_vars
  micros_wd :: u32
  millis_hb :: u32
  reset_low :: bool

text \<open>
  An iteration ends the run in two ways: the reset button restarts the device, and the
  store \<open>incomingPacket[len] = 0\<close> outside the 255-byte buffer has no defined result.
\<close>

datatype halt = DeviceRestart | StoreOutOfBounds

definition checkWiFiConnection :: "bool \<Rightarrow> tally \<Rightarrow> tally" where
  "checkWiFiConnection wifi s =
     (if \<not> wifi
      then delay 1000 (emit WifiReconnect (logMessageOnce ''RECONNECTING TO WIFI'' s))
      else s)"

text \<open>
  Lines 122-130 of \<open>loop\<close>. \<open>udp.parsePacket()\<close> gives the size of the pending datagram,
  0 when there is none; \<open>udp.read(buffer, 255)\<close> copies and returns at most 255 of its
  bytes. The buffer is \<open>char incomingPacket[255]\<close>: the store \<open>incomingPacket[len] = 0\<close>
  is inside it when \<open>len < 255\<close>. The handler gets the buffer as a C string: its bytes
  up to the first NUL.
\<close>

definition incomingPacket_size :: nat where
  "incomingPacket_size = 255"

definition udp_read :: "string \<Rightarrow> nat \<Rightarrow> string" where
  "udp_read d n = take n d"

definition c_str :: "string \<Rightarrow> string" where
  "c_str bytes = takeWhile (\<lambda>c. c \<noteq> CHR 0x00) bytes"

definition receive :: "loop_input \<Rightarrow> tally \<Rightarrow> halt + tally" where
  "receive inp s =
     (case datagram inp of
        None \<Rightarrow> Inr s
      | Some d \<Rightarrow>
          (if length d = 0 then Inr s
           else (let len = length (udp_read d 255) in
                 if 0 < len
                 then (if len < incomingPacket_size
                       then Inr (handleReceivedMessage (c_str (udp_read d 255))
                                   (micros_rx inp) (uninit_vars inp) s)
                       else Inl StoreOutOfBounds)
                 else Inr s)))"

text \<open>
  Lines 132-138: the watchdog. The reading \<open>currentTime\<close> of line 132 is never used;
  \<open>now\<close> is the reading \<open>diffMicroSeconds\<close> takes.
\<close>

definition watchdog :: "u32 \<Rightarrow> tally \<Rightarrow> tally" where
  "watchdog now s =
     (if 3000000 < diffMicroSeconds now (timeLastPackageReceived s)
      then logMessageOnce ''DISCONNECTED'' (updateLEDs 255 0 0 s)
      else logMessageOnce ''CONNECTED'' s)"

text \<open>Lines 140-142: \<open>ms\<close> is the reading of \<open>millis()\<close>.\<close>

definition heartbeat :: "u32 \<Rightarrow> bool \<Rightarrow> tally \<Rightarrow> tally" where
  "heartbeat ms wifi s = (if ms mod 1000 < 100 then sendTallyStatus wifi s else s)"

text \<open>The body of \<open>if (WiFi.status() == WL_CONNECTED)\<close>, lines 121-143.\<close>

definition connected_body :: "loop_input \<Rightarrow> tally \<Rightarrow> halt + tally" where
  "connected_body inp s =
     (case receive inp s of
        Inl h \<Rightarrow> Inl h
      | Inr s1 \<Rightarrow> Inr (heartbeat (millis_hb inp) (wifi_send inp) (watchdog (micros_wd inp) s1)))"

text \<open>
  \<open>loop\<close>, lines 118-152. A pressed reset button prints a line, waits a second and
  restarts the device: the iteration does not return.
\<close>

definition loop :: "loop_input \<Rightarrow> tally \<Rightarrow> halt + tally" where
  "loop inp s =
     (case (if wifi_loop inp then connected_body inp (checkWiFiConnection (wifi_check inp) s)
            else Inr (checkWiFiConnection (wifi_check inp) s)) of
        Inl h \<Rightarrow> Inl h
      | Inr s1 \<Rightarrow> if reset_low inp then Inl DeviceRestart else Inr s1)"

text \<open>A run of the loop over the inputs of its iterations, stopping at the first halt.\<close>

fun run :: "loop_input list \<Rightarrow> tally \<Rightarrow> halt + tally" where
  "run [] s = Inr s"
| "run (inp # inps) s = (case loop inp s of Inl h \<Rightarrow> Inl h | Inr s1 \<Rightarrow> run inps s1)"

subsection \<open>Reading a trace\<close>

text \<open>The frames flushed to the strip, and the datagrams sent to the hub, in order.\<close>

fun shown :: "event list \<Rightarrow> u32 list list" where
  "shown [] = []"
| "shown (StripShow px # es) = px # shown es"
| "shown (e # es) = shown es"

fun sent :: "event list \<Rightarrow> string list" where
  "sent [] = []"
| "sent (UdpSend m # es) = m # sent es"
| "sent (e # es) = sent es"

text \<open>The connectivity messages among the serial lines.\<close>

definition conn_lines :: "event list \<Rightarrow> event list" where
  "conn_lines es =
     filter (\<lambda>e. e = SerialLine ''CONNECTED'' \<or> e = SerialLine ''DISCONNECTED'') es"

subsection \<open>Well-formed commands and the inputs of an iteration\<close>

text \<open>
  A command as the hub writes it: decimal digits for the colours and the duration,
  hexadecimal digits for the pattern, the separators of the format.
\<close>

definition decimal :: "string \<Rightarrow> bool" where
  "decimal ds = (ds \<noteq> [] \<and> list_all isdigit ds)"

definition hexadecimal :: "string \<Rightarrow> bool" where
  "hexadecimal ds = (ds \<noteq> [] \<and> list_all isxdigit ds)"

definition command_text ::
  "string \<Rightarrow> string \<Rightarrow> string \<Rightarrow> string \<Rightarrow> string \<Rightarrow> string \<Rightarrow> string \<Rightarrow> string \<Rightarrow> string" where
  "command_text r g b sr sg sb p d =
     ''O'' @ r @ ''/'' @ g @ ''/'' @ b @ '' S'' @ sr @ ''/'' @ sg @ ''/'' @ sb
       @ '' 0x'' @ p @ '' '' @ d"

text \<open>
  The digits \<open>printf\<close> writes for a number, \<open>%d\<close> in base 10 and \<open>%x\<close> in base 16:
  what a digit string means is read off them.
\<close>

definition digit_char :: "nat \<Rightarrow> char" where
  "digit_char k = (if k < 10 then char_of (48 + k) else char_of (87 + k))"

function digits_of :: "nat \<Rightarrow> nat \<Rightarrow> string" where
  "digits_of base n =
     (if n < base \<or> base < 2 then [digit_char n]
      else digits_of base (n div base) @ [digit_char (n mod base)])"
  by pat_completeness auto
termination
  by (relation "measure snd") auto

text \<open>The input after a number does not go on with a character of the number.\<close>

definition ends_number :: "(char \<Rightarrow> bool) \<Rightarrow> string \<Rightarrow> bool" where
  "ends_number isd rest = (case rest of [] \<Rightarrow> True | c # _ \<Rightarrow> \<not> isd c)"

text \<open>Some start values for the command locals.\<close>

definition junk :: command_vars where
  "junk = \<lparr>opR = 1, opG = 2, opB = 3, stR = 4, stG = 5, stB = 6, patternNumber = 7,
     duration = 8\<rparr>"

text \<open>
  An iteration returns when the reset button is up and, with WiFi up, the datagram leaves
  room for the terminator.
\<close>

definition completes :: "loop_input \<Rightarrow> bool" where
  "completes inp =
     (\<not> reset_low inp \<and>
      (\<not> wifi_loop inp \<or> (case datagram inp of None \<Rightarrow> True | Some d \<Rightarrow> length d < 255)))"

text \<open>
  The message the watchdog of an iteration chooses: it compares the clock with the time
  of the last packet, which is this iteration's packet if one came.
\<close>

definition connectivity :: "loop_input \<Rightarrow> tally \<Rightarrow> string" where
  "connectivity inp s =
     (if 3000000 < diffMicroSeconds (micros_wd inp)
          (case datagram inp of
             None \<Rightarrow> timeLastPackageReceived s
           | Some d \<Rightarrow> if length d = 0 then timeLastPackageReceived s else micros_rx inp)
      then ''DISCONNECTED'' else ''CONNECTED'')"

text \<open>An iteration with WiFi up, no datagram, the clocks at 0 and the button up.\<close>

definition quiet :: loop_input where
  "quiet = \<lparr>wifi_check = True, wifi_loop = True, wifi_send = True, datagram = None,
     micros_rx = 0, uninit_vars = junk, micros_wd = 0, millis_hb = 0, reset_low = False\<rparr>"

section \<open>Properties\<close>

subsection \<open>The elapsed time\<close>

text \<open>
  C4. The elapsed time across a wrap of the counter should be the true interval,
  \<open>now - time\<close> modulo \<open>2^32\<close>. With the last packet stamped at the largest clock value
  and the clock read again one microsecond later, at 0, the true interval is 1 and
  \<open>diffMicroSeconds\<close> returns 0.
\<close>

theorem diffMicroSeconds_wrap_short_by_one:
  "diffMicroSeconds 0 4294967295 = 0 \<and> (0 :: u32) - 4294967295 = 1"
  by (simp add: diffMicroSeconds_def)

text \<open>In general the wrapped branch is one short of the interval, the other branch exact.\<close>

lemma diffMicroSeconds_eq:
  "diffMicroSeconds now time = (if now < time then now - time - 1 else now - time)"
  by (simp add: diffMicroSeconds_def)

subsection \<open>The strip\<close>

lemma length_setPixelColor: "length (setPixelColor n c px) = length px"
  by (simp add: setPixelColor_def)

lemma nth_setPixelColor:
  "j < length px \<Longrightarrow> setPixelColor n c px ! j = (if j = n then c else px ! j)"
  by (simp add: setPixelColor_def nth_list_update)

declare updateLEDs_loop.simps [simp del]

lemma length_updateLEDs_loop: "length (updateLEDs_loop i n c px) = length px"
proof (induction i n c px rule: updateLEDs_loop.induct)
  case (1 i n c px)
  show ?case
  proof (cases "i < n")
    case True
    with "1" show ?thesis
      by (subst updateLEDs_loop.simps) (simp add: length_setPixelColor)
  next
    case False
    then show ?thesis by (subst updateLEDs_loop.simps) simp
  qed
qed

text \<open>The loop from \<open>i\<close> paints the pixels from \<open>i\<close> up to \<open>n\<close> and no other.\<close>

lemma nth_updateLEDs_loop:
  "0 \<le> i \<Longrightarrow> j < length px \<Longrightarrow>
   updateLEDs_loop i n c px ! j = (if i \<le> int j \<and> int j < n then c else px ! j)"
proof (induction i n c px rule: updateLEDs_loop.induct)
  case (1 i n c px)
  show ?case
  proof (cases "i < n")
    case True
    have "updateLEDs_loop i n c px ! j =
        updateLEDs_loop (i + 1) n c (setPixelColor (nat i) c px) ! j"
      using True by (subst updateLEDs_loop.simps) simp
    also have "\<dots> =
        (if i + 1 \<le> int j \<and> int j < n then c else setPixelColor (nat i) c px ! j)"
      using "1.IH" [OF True] "1.prems" by (simp add: length_setPixelColor)
    also have "\<dots> = (if i \<le> int j \<and> int j < n then c else px ! j)"
      using "1.prems" True by (auto simp: nth_setPixelColor)
    finally show ?thesis .
  next
    case False
    then show ?thesis by (subst updateLEDs_loop.simps) auto
  qed
qed

lemma updateLEDs_loop_all:
  "int (length px) \<le> n \<Longrightarrow> updateLEDs_loop 0 n c px = replicate (length px) c"
  by (rule nth_equalityI) (simp_all add: length_updateLEDs_loop nth_updateLEDs_loop)

subsection \<open>What each step does to the state\<close>

lemma shown_append: "shown (xs @ ys) = shown xs @ shown ys"
  by (induction xs rule: shown.induct) simp_all

lemma sent_append: "sent (xs @ ys) = sent xs @ sent ys"
  by (induction xs rule: sent.induct) simp_all

lemma conn_lines_append: "conn_lines (xs @ ys) = conn_lines xs @ conn_lines ys"
  by (simp add: conn_lines_def)

lemma boot_fields:
  "strip boot = replicate 16 0" "ledCount boot = 16" "trace boot = []" "lastStatus boot = []"
  "timeLastPackageReceived boot = 0" "deviceName boot = ''device-name''"
  by (simp_all add: boot_def)

lemma emit_fields:
  "trace (emit e s) = trace s @ [e]" "strip (emit e s) = strip s"
  "ledCount (emit e s) = ledCount s" "deviceName (emit e s) = deviceName s"
  "timeLastPackageReceived (emit e s) = timeLastPackageReceived s"
  "lastStatus (emit e s) = lastStatus s"
  by (simp_all add: emit_def)

lemma updateLEDs_fields:
  "strip (updateLEDs r g b s) =
     updateLEDs_loop 0 (ledCount s) (Color (word_of_int r) (word_of_int g) (word_of_int b))
       (strip s)"
  "trace (updateLEDs r g b s) = trace s @ [StripShow (strip (updateLEDs r g b s))]"
  "ledCount (updateLEDs r g b s) = ledCount s" "deviceName (updateLEDs r g b s) = deviceName s"
  "timeLastPackageReceived (updateLEDs r g b s) = timeLastPackageReceived s"
  "lastStatus (updateLEDs r g b s) = lastStatus s"
  by (simp_all add: updateLEDs_def Let_def emit_fields)

lemma logMessage_fields:
  "trace (logMessage l m s) = trace s @ [SerialLine (l @ '': '' @ m)]"
  "strip (logMessage l m s) = strip s" "ledCount (logMessage l m s) = ledCount s"
  "deviceName (logMessage l m s) = deviceName s"
  "timeLastPackageReceived (logMessage l m s) = timeLastPackageReceived s"
  "lastStatus (logMessage l m s) = lastStatus s"
  by (simp_all add: logMessage_def emit_fields)

lemma delay_fields:
  "trace (delay ms s) = trace s @ [Hold ms]"
  "strip (delay ms s) = strip s" "ledCount (delay ms s) = ledCount s"
  "deviceName (delay ms s) = deviceName s"
  "timeLastPackageReceived (delay ms s) = timeLastPackageReceived s"
  "lastStatus (delay ms s) = lastStatus s"
  by (simp_all add: delay_def emit_fields)

lemma logMessageOnce_fields:
  "trace (logMessageOnce m s) = trace s @ (if lastStatus s \<noteq> m then [SerialLine m] else [])"
  "lastStatus (logMessageOnce m s) = m"
  "strip (logMessageOnce m s) = strip s" "ledCount (logMessageOnce m s) = ledCount s"
  "deviceName (logMessageOnce m s) = deviceName s"
  "timeLastPackageReceived (logMessageOnce m s) = timeLastPackageReceived s"
  by (simp_all add: logMessageOnce_def emit_fields)

lemma handleReceivedMessage_fields:
  "strip (handleReceivedMessage data now u s) =
     updateLEDs_loop 0 (ledCount s)
       (Color (word_of_int (sint (opR (sscanf_command data u))))
              (word_of_int (sint (opG (sscanf_command data u))))
              (word_of_int (sint (opB (sscanf_command data u))))) (strip s)"
  "trace (handleReceivedMessage data now u s) =
     trace s @ StripShow (strip (handleReceivedMessage data now u s))
       # (if 25 < length data then [Hold (duration (sscanf_command data u) * 1000)] else [])
       @ [SerialLine (''INFO: '' @ data)]"
  "timeLastPackageReceived (handleReceivedMessage data now u s) = now"
  "ledCount (handleReceivedMessage data now u s) = ledCount s"
  "deviceName (handleReceivedMessage data now u s) = deviceName s"
  "lastStatus (handleReceivedMessage data now u s) = lastStatus s"
  by (simp_all add: handleReceivedMessage_def Let_def logMessage_fields delay_fields
      updateLEDs_fields)

lemma handleReceivedMessage_quiet:
  "sent (trace (handleReceivedMessage data now u s)) = sent (trace s)"
  "conn_lines (trace (handleReceivedMessage data now u s)) = conn_lines (trace s)"
  by (simp_all add: handleReceivedMessage_fields sent_append conn_lines_def)

lemma checkWiFiConnection_fields:
  "sent (trace (checkWiFiConnection w s)) = sent (trace s)"
  "deviceName (checkWiFiConnection w s) = deviceName s"
  "checkWiFiConnection True s = s"
  by (simp_all add: checkWiFiConnection_def delay_fields emit_fields logMessageOnce_fields
      sent_append)

lemma watchdog_fields:
  "sent (trace (watchdog now s)) = sent (trace s)"
  "deviceName (watchdog now s) = deviceName s"
  "lastStatus (watchdog now s) =
     (if 3000000 < diffMicroSeconds now (timeLastPackageReceived s)
      then ''DISCONNECTED'' else ''CONNECTED'')"
  "conn_lines (trace (watchdog now s)) =
     conn_lines (trace s) @
       (if lastStatus s = lastStatus (watchdog now s) then []
        else [SerialLine (lastStatus (watchdog now s))])"
  by (simp_all add: watchdog_def logMessageOnce_fields updateLEDs_fields sent_append
      conn_lines_append conn_lines_def)

lemma sendTallyStatus_fields:
  "sent (trace (sendTallyStatus w s)) =
     sent (trace s) @ (if w then [tally_ho (deviceName s)] else [])"
  "conn_lines (trace (sendTallyStatus w s)) = conn_lines (trace s)"
  by (simp_all add: sendTallyStatus_def logMessageOnce_fields emit_fields sent_append
      conn_lines_append conn_lines_def)

lemma heartbeat_fields:
  "sent (trace (heartbeat ms w s)) =
     sent (trace s) @ (if ms mod 1000 < 100 \<and> w then [tally_ho (deviceName s)] else [])"
  "conn_lines (trace (heartbeat ms w s)) = conn_lines (trace s)"
  "\<not> ms mod 1000 < 100 \<Longrightarrow> heartbeat ms w s = s"
  by (simp_all add: heartbeat_def sendTallyStatus_fields)

subsection \<open>The scanner on digit strings\<close>

lemma isdigit_not_space: "isdigit c \<Longrightarrow> \<not> isspace c"
  by (auto simp: isdigit_def isspace_def)

lemma isdigit_not_sign: "isdigit c \<Longrightarrow> c \<noteq> CHR ''-'' \<and> c \<noteq> CHR ''+''"
  by (auto simp: isdigit_def)

lemma isdigit_isxdigit: "isdigit c \<Longrightarrow> isxdigit c"
  by (simp add: isxdigit_def)

lemma isxdigit_not_space: "isxdigit c \<Longrightarrow> \<not> isspace c"
  by (auto simp: isxdigit_def isdigit_def isspace_def)

lemma isxdigit_not_sign: "isxdigit c \<Longrightarrow> c \<noteq> CHR ''-'' \<and> c \<noteq> CHR ''+''"
  by (auto simp: isxdigit_def isdigit_def)

lemma isxdigit_not_x: "isxdigit c \<Longrightarrow> c \<noteq> CHR ''x'' \<and> c \<noteq> CHR ''X''"
  by (auto simp: isxdigit_def isdigit_def)

lemma separators:
  "\<not> isdigit (CHR ''/'')" "\<not> isdigit (CHR '' '')" "\<not> isxdigit (CHR '' '')"
  "isspace (CHR '' '')" "\<not> isspace (CHR ''S'')" "\<not> isspace (CHR ''0'')"
  by (simp_all add: isdigit_def isxdigit_def isspace_def)

lemma ends_number_simps:
  "ends_number P []" "ends_number P (c # cs) = (\<not> P c)"
  by (simp_all add: ends_number_def)

lemma takeWhile_number:
  "list_all P ds \<Longrightarrow> ends_number P rest \<Longrightarrow> takeWhile P (ds @ rest) = ds"
  by (cases rest) (auto simp: ends_number_def list_all_iff takeWhile_tail)

lemma dropWhile_number:
  "list_all P ds \<Longrightarrow> ends_number P rest \<Longrightarrow> dropWhile P (ds @ rest) = rest"
  by (cases rest) (auto simp: ends_number_def list_all_iff dropWhile_append2)

lemma dropWhile_isspace_decimal: "decimal ds \<Longrightarrow> dropWhile isspace ds = ds"
  by (cases ds) (auto simp: decimal_def isdigit_not_space)

text \<open>\<open>%d\<close> on a digit string reads all of it and stops at what follows.\<close>

lemma conv_d_decimal:
  assumes "decimal ds" and "ends_number isdigit rest"
  shows "conv_d (ds @ rest) = Some (strtol_value False (digits_value 10 ds), rest)"
proof -
  from assms(1) obtain c cs where ds: "ds = c # cs" and c: "isdigit c"
    and all: "list_all isdigit ds"
    by (cases ds) (auto simp: decimal_def)
  have "dropWhile isspace (ds @ rest) = ds @ rest"
    using c by (simp add: ds isdigit_not_space)
  moreover have "strip_sign (ds @ rest) = (False, ds @ rest)"
    using c isdigit_not_sign [of c] by (simp add: ds)
  ultimately show ?thesis
    using assms(2) all by (simp add: conv_d_def takeWhile_number dropWhile_number ds)
qed

text \<open>Hexadecimal digits never look like the prefix \<open>0x\<close>, unless an \<open>x\<close> follows them.\<close>

lemma hex_prefix_hexadecimal:
  assumes "hexadecimal hs" and "ends_number (\<lambda>c. c = CHR ''x'' \<or> c = CHR ''X'') rest"
  shows "hex_prefix (hs @ rest) = Some (hs @ rest)"
proof -
  from assms(1) obtain c cs where hs: "hs = c # cs" and cs: "list_all isxdigit cs"
    by (cases hs) (auto simp: hexadecimal_def)
  show ?thesis
  proof (cases cs)
    case Nil
    then show ?thesis
      using assms(2) by (cases rest) (auto simp: hs ends_number_def)
  next
    case (Cons b bs)
    then have "isxdigit b" using cs by simp
    then show ?thesis
      using isxdigit_not_x [of b] by (simp add: hs Cons)
  qed
qed

lemma conv_x_hexadecimal:
  assumes "hexadecimal hs" and "ends_number isxdigit rest"
    and "ends_number (\<lambda>c. c = CHR ''x'' \<or> c = CHR ''X'') rest"
  shows "conv_x (hs @ rest) = Some (strtoul_value False (digits_value 16 hs), rest)"
proof -
  from assms(1) obtain c cs where hs: "hs = c # cs" and c: "isxdigit c"
    and all: "list_all isxdigit hs"
    by (cases hs) (auto simp: hexadecimal_def)
  have "dropWhile isspace (hs @ rest) = hs @ rest"
    using c by (simp add: hs isxdigit_not_space)
  moreover have "strip_sign (hs @ rest) = (False, hs @ rest)"
    using c isxdigit_not_sign [of c] by (simp add: hs)
  moreover note hex_prefix_hexadecimal [OF assms(1,3)]
  ultimately show ?thesis
    using assms(2) all hs
    by (simp add: conv_x_def takeWhile_number dropWhile_number del: hex_prefix.simps)
qed

lemma scan_ConvD_decimal:
  "decimal ds \<Longrightarrow> ends_number isdigit rest \<Longrightarrow>
   scan (ConvD # fs) (ds @ rest) = strtol_value False (digits_value 10 ds) # scan fs rest"
  by (simp add: conv_d_decimal)

lemma scan_ConvX_hexadecimal:
  "hexadecimal hs \<Longrightarrow> ends_number isxdigit rest \<Longrightarrow>
   ends_number (\<lambda>c. c = CHR ''x'' \<or> c = CHR ''X'') rest \<Longrightarrow>
   scan (ConvX # fs) (hs @ rest) = strtoul_value False (digits_value 16 hs) # scan fs rest"
  by (simp add: conv_x_hexadecimal)

text \<open>The whole format against a well-formed command: eight values, in order.\<close>

lemma scan_command_text:
  assumes "decimal r" "decimal g" "decimal b" "decimal sr" "decimal sg" "decimal sb"
    "hexadecimal p" "decimal d"
  shows "scan command_format (command_text r g b sr sg sb p d) =
    [strtol_value False (digits_value 10 r), strtol_value False (digits_value 10 g),
     strtol_value False (digits_value 10 b), strtol_value False (digits_value 10 sr),
     strtol_value False (digits_value 10 sg), strtol_value False (digits_value 10 sb),
     strtoul_value False (digits_value 16 p), strtol_value False (digits_value 10 d)]"
  using assms scan_ConvD_decimal [of d "[]"]
  by (simp add: command_format_def command_text_def scan_ConvD_decimal scan_ConvX_hexadecimal
      dropWhile_isspace_decimal ends_number_simps separators del: scan.simps(4,5))

lemma sscanf_command_text:
  assumes "decimal r" "decimal g" "decimal b" "decimal sr" "decimal sg" "decimal sb"
    "hexadecimal p" "decimal d"
  shows "sscanf_command (command_text r g b sr sg sb p d) u =
    \<lparr>opR = strtol_value False (digits_value 10 r), opG = strtol_value False (digits_value 10 g),
     opB = strtol_value False (digits_value 10 b), stR = strtol_value False (digits_value 10 sr),
     stG = strtol_value False (digits_value 10 sg), stB = strtol_value False (digits_value 10 sb),
     patternNumber = strtoul_value False (digits_value 16 p),
     duration = strtol_value False (digits_value 10 d)\<rparr>"
  using assms by (simp add: sscanf_command_def stored_def scan_command_text)

subsection \<open>The value of a digit string\<close>

lemma digit_val_nonneg: "isxdigit c \<Longrightarrow> 0 \<le> digit_val c"
  by (auto simp: digit_val_def isxdigit_def isdigit_def)

lemma foldl_digits_nonneg:
  "list_all isxdigit ds \<Longrightarrow> 0 \<le> a \<Longrightarrow> 0 \<le> base \<Longrightarrow>
   0 \<le> foldl (\<lambda>a c. a * base + digit_val c) a ds"
  by (induction ds arbitrary: a) (simp_all add: digit_val_nonneg)

lemma digits_value_decimal_nonneg: "decimal ds \<Longrightarrow> 0 \<le> digits_value 10 ds"
  unfolding digits_value_def decimal_def
  by (rule foldl_digits_nonneg) (auto simp: list_all_iff isdigit_isxdigit)


lemma sint_strtol_value:
  "0 \<le> m \<Longrightarrow> m \<le> 2147483647 \<Longrightarrow> sint (strtol_value False m) = m"
  by (simp add: strtol_value_def signed_of_int signed_take_bit_int_eq_self)


text \<open>
  \<open>digits_value\<close> is the number the digits write: the digits \<open>printf\<close> produces for
  \<open>n\<close>, behind any number of zeros, have the value \<open>n\<close>.
\<close>

declare digits_of.simps [simp del]

lemma digit_char_val: "k < 16 \<Longrightarrow> digit_val (digit_char k) = int k"
  by (auto simp: digit_char_def digit_val_def isdigit_def)

lemma digit_char_isdigit: "k < 10 \<Longrightarrow> isdigit (digit_char k)"
  by (simp add: digit_char_def isdigit_def)

lemma digit_char_isxdigit: "k < 16 \<Longrightarrow> isxdigit (digit_char k)"
  by (auto simp: digit_char_def isxdigit_def isdigit_def)

lemma digits_value_snoc:
  "digits_value base (ds @ [c]) = digits_value base ds * base + digit_val c"
  by (simp add: digits_value_def)

lemma digits_value_digits_of:
  "2 \<le> base \<Longrightarrow> base \<le> 16 \<Longrightarrow> digits_value (int base) (digits_of base n) = int n"
proof (induction base n rule: digits_of.induct)
  case (1 base n)
  show ?case
  proof (cases "n < base")
    case True
    with "1.prems" show ?thesis
      by (subst digits_of.simps) (simp add: digits_value_def digit_char_val)
  next
    case False
    with "1.prems" have IH:
      "digits_value (int base) (digits_of base (n div base)) = int (n div base)"
      using "1.IH" by simp
    have "n mod base < base" using "1.prems" by simp
    with "1.prems" have "n mod base < 16" by linarith
    then have "digit_val (digit_char (n mod base)) = int (n mod base)"
      by (rule digit_char_val)
    with False "1.prems" IH show ?thesis
      by (subst digits_of.simps) (simp add: digits_value_snoc flip: of_nat_mult of_nat_add)
  qed
qed

lemma digits_value_leading_zeros:
  "digits_value base (replicate z (CHR ''0'') @ ds) = digits_value base ds"
proof -
  have "foldl (\<lambda>a c. a * base + digit_val c) 0 (replicate z (CHR ''0'')) = 0"
    by (induction z) (simp_all add: digit_val_def isdigit_def)
  then show ?thesis by (simp add: digits_value_def)
qed

lemma digits_value_printed:
  "digits_value 10 (replicate z (CHR ''0'') @ digits_of 10 n) = int n"
  "digits_value 16 (replicate z (CHR ''0'') @ digits_of 16 n) = int n"
  using digits_value_digits_of [of 10 n] digits_value_digits_of [of 16 n]
  by (simp_all add: digits_value_leading_zeros)

lemma list_all_digits_of:
  assumes "2 \<le> base" and "\<And>k. k < base \<Longrightarrow> P (digit_char k)"
  shows "list_all P (digits_of base n)"
  using assms
proof (induction base n rule: digits_of.induct)
  case (1 base n)
  show ?case
  proof (cases "n < base")
    case True
    with "1.prems" show ?thesis by (subst digits_of.simps) simp
  next
    case False
    with "1.prems" have "list_all P (digits_of base (n div base))"
      using "1.IH" by simp
    moreover have "P (digit_char (n mod base))"
      using "1.prems" by simp
    ultimately show ?thesis
      using False "1.prems" by (subst digits_of.simps) simp
  qed
qed

lemma digits_of_nonempty: "digits_of base n \<noteq> []"
  by (subst digits_of.simps) simp

lemma list_all_replicate_zero: "list_all isdigit (replicate z (CHR ''0''))"
  by (induction z) (simp_all add: isdigit_def)

lemma decimal_printed: "decimal (replicate z (CHR ''0'') @ digits_of 10 n)"
proof -
  have "list_all isdigit (digits_of 10 n)"
    by (rule list_all_digits_of) (simp_all add: digit_char_isdigit)
  then show ?thesis
    by (simp add: decimal_def digits_of_nonempty list_all_replicate_zero)
qed

lemma hexadecimal_printed: "hexadecimal (replicate z (CHR ''0'') @ digits_of 16 n)"
proof -
  have "list_all isxdigit (digits_of 16 n)"
    by (rule list_all_digits_of) (simp_all add: digit_char_isxdigit)
  moreover have "list_all isxdigit (replicate z (CHR ''0''))"
    by (induction z) (simp_all add: isxdigit_def isdigit_def)
  ultimately show ?thesis
    by (simp add: hexadecimal_def digits_of_nonempty)
qed

text \<open>
  So a command printed with the format of the scan, for numbers an \<open>int\<close> holds, scans
  back to those numbers.
\<close>

lemma printed_command_scans_back:
  assumes "r \<le> 2147483647" "g \<le> 2147483647" "b \<le> 2147483647" "sr \<le> 2147483647"
    "sg \<le> 2147483647" "sb \<le> 2147483647" "p \<le> 2147483647" "d \<le> 2147483647"
  shows "sscanf_command
      (command_text (digits_of 10 r) (digits_of 10 g) (digits_of 10 b) (digits_of 10 sr)
         (digits_of 10 sg) (digits_of 10 sb) (digits_of 16 p) (digits_of 10 d)) u =
    \<lparr>opR = word_of_nat r, opG = word_of_nat g, opB = word_of_nat b, stR = word_of_nat sr,
     stG = word_of_nat sg, stB = word_of_nat sb, patternNumber = word_of_nat p,
     duration = word_of_nat d\<rparr>"
proof -
  have dec: "decimal (digits_of 10 n)" for n
    using decimal_printed [of 0 n] by simp
  have hex: "hexadecimal (digits_of 16 n)" for n
    using hexadecimal_printed [of 0 n] by simp
  have vd: "n \<le> 2147483647 \<Longrightarrow> strtol_value False (digits_value 10 (digits_of 10 n)) = word_of_nat n" for n
    using digits_value_digits_of [of 10 n] by (simp add: strtol_value_def)
  have vx: "n \<le> 2147483647 \<Longrightarrow> strtoul_value False (digits_value 16 (digits_of 16 n)) = word_of_nat n" for n
    using digits_value_digits_of [of 16 n] by (simp add: strtoul_value_def)
  show ?thesis
    using assms by (simp add: sscanf_command_text dec hex vd vx)
qed

text \<open>The digit strings of the examples below.\<close>

lemma decimal_examples:
  "decimal ''255''" "decimal ''0''" "decimal ''5''" "decimal ''9''" "decimal ''500''"
  "hexadecimal ''01''" "hexadecimal ''02''"
  by (simp_all add: decimal_def hexadecimal_def isdigit_def isxdigit_def)

lemma digits_value_examples:
  "digits_value 10 ''255'' = 255" "digits_value 10 ''0'' = 0" "digits_value 10 ''5'' = 5"
  "digits_value 10 ''500'' = 500" "digits_value 16 ''01'' = 1"
  by (simp_all add: digits_value_def digit_val_def isdigit_def)

lemmas scan_eval = command_format_def conv_d_def conv_x_def isdigit_def isxdigit_def
  isspace_def digit_val_def digits_value_def strtol_value_def strtoul_value_def

subsection \<open>Well-formed commands\<close>



text \<open>
  C9. Two well-formed commands with the same operator colour and duration leave the same
  strip and flush the same frames, whatever their standby colours and patterns are (and
  whatever the clock and the start values of the locals).
\<close>

theorem rendering_ignores_standby_and_pattern:
  assumes "decimal r" "decimal g" "decimal b" "decimal d"
    and "decimal sr" "decimal sg" "decimal sb" "hexadecimal p"
    and "decimal sr'" "decimal sg'" "decimal sb'" "hexadecimal p'"
  shows "strip (handleReceivedMessage (command_text r g b sr sg sb p d) now u s) =
         strip (handleReceivedMessage (command_text r g b sr' sg' sb' p' d) now' u' s)
    \<and> shown (trace (handleReceivedMessage (command_text r g b sr sg sb p d) now u s)) =
      shown (trace (handleReceivedMessage (command_text r g b sr' sg' sb' p' d) now' u' s))"
proof -
  have eq: "strip (handleReceivedMessage (command_text r g b sr sg sb p d) now u s) =
         strip (handleReceivedMessage (command_text r g b sr' sg' sb' p' d) now' u' s)"
    using assms by (simp add: handleReceivedMessage_fields(1) sscanf_command_text)
  have sh: "shown (trace (handleReceivedMessage data t v s)) =
      shown (trace s) @ [strip (handleReceivedMessage data t v s)]" for data t v
    by (simp add: handleReceivedMessage_fields(2) shown_append)
  show ?thesis
    using eq by (simp add: sh)
qed

text \<open>Two commands for red that differ in the standby colour and the pattern.\<close>

theorem rendering_ignores_standby_and_pattern_witness:
  "strip (handleReceivedMessage ''O255/0/0 S0/0/255 0x01 5'' 5 junk boot) =
   strip (handleReceivedMessage ''O255/0/0 S9/9/9 0x02 5'' 6 junk boot)
   \<and> shown (trace (handleReceivedMessage ''O255/0/0 S0/0/255 0x01 5'' 5 junk boot)) =
     shown (trace (handleReceivedMessage ''O255/0/0 S9/9/9 0x02 5'' 6 junk boot))"
  using rendering_ignores_standby_and_pattern [of "''255''" "''0''" "''0''" "''5''"
      "''0''" "''0''" "''255''" "''01''" "''9''" "''9''" "''9''" "''02''" 5 junk boot 6 junk]
  by (simp add: decimal_examples command_text_def)

subsection \<open>The hold of a timed command\<close>

lemma hold_fits:
  "0 \<le> m \<Longrightarrow> m \<le> 2147483 \<Longrightarrow> uint (word_of_int (m * 1000) :: u32) = m * 1000"
  by (rule word_of_int_inverse [OF refl]) simp_all

text \<open>
  C3, as the code has it. The argument of \<open>delay\<close> is \<open>duration * 1000\<close>: a well-formed
  command longer than 25 characters renders the operator colour, then holds for a
  thousand times its duration field in milliseconds (the field counts seconds; up to
  2147483 the product fits), then logs the payload.
\<close>

theorem timed_command_holds_seconds:
  assumes "decimal r" "decimal g" "decimal b" "decimal sr" "decimal sg" "decimal sb"
    "hexadecimal p" "decimal d"
    and "digits_value 10 r \<le> 2147483647" "digits_value 10 g \<le> 2147483647"
      "digits_value 10 b \<le> 2147483647"
    and "25 < length (command_text r g b sr sg sb p d)"
    and "digits_value 10 d \<le> 2147483"
  shows "trace (handleReceivedMessage (command_text r g b sr sg sb p d) now u s) =
      trace s @
        [StripShow (strip (handleReceivedMessage (command_text r g b sr sg sb p d) now u s)),
         Hold (word_of_int (digits_value 10 d * 1000)),
         SerialLine (''INFO: '' @ command_text r g b sr sg sb p d)]
    \<and> uint (word_of_int (digits_value 10 d * 1000) :: u32) = digits_value 10 d * 1000
    \<and> strip (handleReceivedMessage (command_text r g b sr sg sb p d) now u s) =
      strip (updateLEDs (digits_value 10 r) (digits_value 10 g) (digits_value 10 b) s)"
proof -
  let ?data = "command_text r g b sr sg sb p d"
  have d0: "0 \<le> digits_value 10 d"
    using assms(8) by (rule digits_value_decimal_nonneg)
  have dur: "duration (sscanf_command ?data u) * 1000 = word_of_int (digits_value 10 d * 1000)"
    using assms d0 by (simp add: sscanf_command_text strtol_value_def)
  have op: "sint (opR (sscanf_command ?data u)) = digits_value 10 r"
    "sint (opG (sscanf_command ?data u)) = digits_value 10 g"
    "sint (opB (sscanf_command ?data u)) = digits_value 10 b"
    using assms
    by (simp_all add: sscanf_command_text sint_strtol_value digits_value_decimal_nonneg)
  have tr: "trace (handleReceivedMessage ?data now u s) =
      trace s @ [StripShow (strip (handleReceivedMessage ?data now u s)),
                 Hold (word_of_int (digits_value 10 d * 1000)), SerialLine (''INFO: '' @ ?data)]"
    using assms(12) by (simp add: handleReceivedMessage_fields(2) dur)
  have st: "strip (handleReceivedMessage ?data now u s) =
      strip (updateLEDs (digits_value 10 r) (digits_value 10 g) (digits_value 10 b) s)"
    by (simp add: handleReceivedMessage_fields(1) updateLEDs_fields(1) op)
  show ?thesis
    using tr st hold_fits [OF d0 assms(13)] by simp
qed

text \<open>The command \<open>O255/0/0 S0/0/255 0x01 500\<close>: red, then a hold of 500000 ms.\<close>

theorem timed_command_holds_seconds_witness:
  "25 < length ''O255/0/0 S0/0/255 0x01 500''
   \<and> trace (handleReceivedMessage ''O255/0/0 S0/0/255 0x01 500'' 5 junk boot) =
      [StripShow (strip (handleReceivedMessage ''O255/0/0 S0/0/255 0x01 500'' 5 junk boot)),
       Hold 500000, SerialLine ''INFO: O255/0/0 S0/0/255 0x01 500'']
   \<and> strip (handleReceivedMessage ''O255/0/0 S0/0/255 0x01 500'' 5 junk boot) =
      strip (updateLEDs 255 0 0 boot)"
  using timed_command_holds_seconds [of "''255''" "''0''" "''0''" "''0''" "''0''" "''255''"
      "''01''" "''500''" 5 junk boot]
  by (simp add: decimal_examples digits_value_examples command_text_def boot_fields)

text \<open>
  C3 as stated fails. The command \<open>O255/0/0 S0/0/255 0x01 500\<close> has 26 characters and
  the duration field 500: the strip is flushed in red and the hold is 500000 ms, not
  500 ms.
\<close>

theorem timed_command_hold_counterexample:
  "25 < length ''O255/0/0 S0/0/255 0x01 500''
   \<and> sint (duration (sscanf_command ''O255/0/0 S0/0/255 0x01 500'' junk)) = 500
   \<and> trace (handleReceivedMessage ''O255/0/0 S0/0/255 0x01 500'' 5 junk boot) =
       [StripShow (replicate 16 16711680), Hold 500000,
        SerialLine ''INFO: O255/0/0 S0/0/255 0x01 500'']"
proof -
  have v: "scan command_format ''O255/0/0 S0/0/255 0x01 500'' = [255, 0, 0, 0, 0, 255, 1, 500]"
    by (simp add: scan_eval)
  show ?thesis
    by (simp add: handleReceivedMessage_fields sscanf_command_def stored_def v boot_fields
        updateLEDs_loop_all Color_def)
qed

subsection \<open>Malformed payloads\<close>

text \<open>
  C1. A malformed payload should be rejected and nothing of it rendered. The payload
  \<open>O255/0\<close> lacks six of the eight fields: the scan assigns two locals and leaves
  \<open>opB\<close> as it was, and \<open>handleReceivedMessage\<close>, which never looks at what \<open>sscanf\<close>
  returns, stamps the packet, paints and flushes the strip and logs the payload all the
  same. The blue byte of the frame is the low byte of the local the scan never assigned,
  whatever that holds.
\<close>

theorem malformed_payload_rendered:
  "sscanf_count ''O255/0'' = 2
   \<and> opB (sscanf_command ''O255/0'' u) = opB u
   \<and> timeLastPackageReceived (handleReceivedMessage ''O255/0'' now u boot) = now
   \<and> strip (handleReceivedMessage ''O255/0'' now u boot) =
       replicate 16 (Color 255 0 (word_of_int (sint (opB u))))
   \<and> trace (handleReceivedMessage ''O255/0'' now u boot) =
       [StripShow (replicate 16 (Color 255 0 (word_of_int (sint (opB u))))),
        SerialLine ''INFO: O255/0'']"
proof -
  have v: "scan command_format ''O255/0'' = [255, 0]"
    by (simp add: scan_eval)
  show ?thesis
    by (simp add: handleReceivedMessage_fields sscanf_count_def sscanf_command_def stored_def v
        boot_fields updateLEDs_loop_all)
qed

text \<open>With 3 in that local the frame is \<open>0xFF0003\<close>, with 0 it is red.\<close>

lemma malformed_payload_frames:
  "strip (handleReceivedMessage ''O255/0'' now junk boot) = replicate 16 16711683"
  "strip (handleReceivedMessage ''O255/0'' now (junk\<lparr>opB := 0\<rparr>) boot) = replicate 16 16711680"
proof -
  have v: "scan command_format ''O255/0'' = [255, 0]"
    by (simp add: scan_eval)
  show "strip (handleReceivedMessage ''O255/0'' now junk boot) = replicate 16 16711683"
    by (simp add: handleReceivedMessage_fields sscanf_command_def stored_def v
        boot_fields updateLEDs_loop_all Color_def junk_def)
  show "strip (handleReceivedMessage ''O255/0'' now (junk\<lparr>opB := 0\<rparr>) boot) =
      replicate 16 16711680"
    by (simp add: handleReceivedMessage_fields sscanf_command_def stored_def v
        boot_fields updateLEDs_loop_all Color_def junk_def)
qed

subsection \<open>The watchdog\<close>

text \<open>
  C5. The watchdog at its boundary. An elapsed time of exactly 3000000 microseconds
  leaves the status CONNECTED and the strip alone. Any larger elapsed time leaves the
  status DISCONNECTED, paints every pixel below \<open>ledCount\<close> red (\<open>0xFF0000\<close>, which
  is 16711680) and flushes the strip.
\<close>

theorem watchdog_boundary:
  "(diffMicroSeconds now (timeLastPackageReceived s) = 3000000 \<longrightarrow>
      lastStatus (watchdog now s) = ''CONNECTED'' \<and> strip (watchdog now s) = strip s
      \<and> shown (trace (watchdog now s)) = shown (trace s))
   \<and> (3000000 < diffMicroSeconds now (timeLastPackageReceived s) \<longrightarrow>
      lastStatus (watchdog now s) = ''DISCONNECTED''
      \<and> length (strip (watchdog now s)) = length (strip s)
      \<and> (\<forall>j < length (strip s).
            strip (watchdog now s) ! j = (if int j < ledCount s then 16711680 else strip s ! j))
      \<and> shown (trace (watchdog now s)) = shown (trace s) @ [strip (watchdog now s)])"
  by (simp add: watchdog_def logMessageOnce_fields updateLEDs_fields shown_append
      length_updateLEDs_loop nth_updateLEDs_loop Color_def)

text \<open>From the start state, with the clock at 3000000 and at 3000001.\<close>

theorem watchdog_boundary_witness:
  "diffMicroSeconds 3000000 (timeLastPackageReceived boot) = 3000000
   \<and> lastStatus (watchdog 3000000 boot) = ''CONNECTED''
   \<and> strip (watchdog 3000000 boot) = strip boot
   \<and> 3000000 < diffMicroSeconds 3000001 (timeLastPackageReceived boot)
   \<and> lastStatus (watchdog 3000001 boot) = ''DISCONNECTED''
   \<and> strip (watchdog 3000001 boot) ! 0 = 16711680
   \<and> shown (trace (watchdog 3000001 boot)) = [strip (watchdog 3000001 boot)]"
  using watchdog_boundary [of 3000000 boot] watchdog_boundary [of 3000001 boot]
  by (simp add: boot_fields diffMicroSeconds_def)

subsection \<open>The loop\<close>

lemmas loop_eval = loop_def connected_body_def receive_def incomingPacket_size_def quiet_def
  watchdog_def diffMicroSeconds_def heartbeat_def sendTallyStatus_def logMessageOnce_def
  emit_def checkWiFiConnection_def boot_def updateLEDs_def Let_def updateLEDs_loop_all
  Color_def

text \<open>A datagram that leaves room for the terminator is handled, or there was none.\<close>

lemma receive_Inr:
  assumes "case datagram inp of None \<Rightarrow> True | Some d \<Rightarrow> length d < 255"
  shows "\<exists>s'. receive inp s = Inr s' \<and> sent (trace s') = sent (trace s)
    \<and> conn_lines (trace s') = conn_lines (trace s)
    \<and> deviceName s' = deviceName s \<and> lastStatus s' = lastStatus s
    \<and> timeLastPackageReceived s' =
        (case datagram inp of
           None \<Rightarrow> timeLastPackageReceived s
         | Some d \<Rightarrow> if length d = 0 then timeLastPackageReceived s else micros_rx inp)"
  using assms
  by (auto simp: receive_def udp_read_def incomingPacket_size_def handleReceivedMessage_quiet
      handleReceivedMessage_fields(3-6) split: option.splits)

text \<open>
  C2, as the code has it. Whether an iteration sends the heartbeat depends on the WiFi
  status and on \<open>millis() % 1000 < 100\<close> only; the watchdog plays no part. An iteration
  that returns sends one heartbeat when WiFi is up at the reading of \<open>loop\<close> and at the
  reading of \<open>sendTallyStatus\<close> and the clock is in the first 100 ms of a second, and
  none otherwise.
\<close>

theorem heartbeat_gate:
  assumes "completes inp"
  shows "\<exists>s'. loop inp s = Inr s' \<and>
    sent (trace s') = sent (trace s) @
      (if wifi_loop inp \<and> wifi_send inp \<and> millis_hb inp mod 1000 < 100
       then [tally_ho (deviceName s)] else [])"
proof (cases "wifi_loop inp")
  case False
  then show ?thesis
    using assms by (simp add: loop_def completes_def checkWiFiConnection_fields)
next
  case True
  with assms have ok: "case datagram inp of None \<Rightarrow> True | Some d \<Rightarrow> length d < 255"
    and nr: "\<not> reset_low inp"
    by (simp_all add: completes_def)
  from receive_Inr [OF ok, of "checkWiFiConnection (wifi_check inp) s"]
  obtain s1 where s1: "receive inp (checkWiFiConnection (wifi_check inp) s) = Inr s1"
    and se: "sent (trace s1) = sent (trace s)" and dn: "deviceName s1 = deviceName s"
    by (auto simp: checkWiFiConnection_fields)
  show ?thesis
    using True nr s1 se dn
    by (simp add: loop_def connected_body_def heartbeat_fields watchdog_fields)
qed

text \<open>An iteration that finds the device DISCONNECTED and sends its heartbeat.\<close>

theorem heartbeat_gate_witness:
  "completes (quiet\<lparr>micros_wd := 4000000, millis_hb := 4000\<rparr>)
   \<and> (\<exists>s'. loop (quiet\<lparr>micros_wd := 4000000, millis_hb := 4000\<rparr>) boot = Inr s'
         \<and> sent (trace s') = [tally_ho ''device-name''])"
  using heartbeat_gate [of "quiet\<lparr>micros_wd := 4000000, millis_hb := 4000\<rparr>" boot]
  by (simp add: completes_def quiet_def boot_fields)

text \<open>
  C2 as stated fails. With no packet for 4 seconds the watchdog paints the strip red and
  logs DISCONNECTED, and the same iteration, at \<open>millis() = 4000\<close>, sends the heartbeat.
\<close>

theorem heartbeat_while_disconnected:
  "3000000 < diffMicroSeconds 4000000 (timeLastPackageReceived boot)
   \<and> map_sum id trace (loop (quiet\<lparr>micros_wd := 4000000, millis_hb := 4000\<rparr>) boot) =
       Inr [StripShow (replicate 16 16711680), SerialLine ''DISCONNECTED'',
            UdpSend (tally_ho ''device-name''), SerialLine ''Sent status to hub'']"
  by (simp add: loop_eval)

text \<open>
  With WiFi up, an iteration prints its connectivity message when that differs from
  \<open>lastStatus\<close>, and leaves it in \<open>lastStatus\<close> unless the heartbeat overwrites it.
\<close>

lemma loop_connected:
  assumes "completes inp" "wifi_check inp" "wifi_loop inp"
  shows "\<exists>s'. loop inp s = Inr s'
    \<and> conn_lines (trace s') = conn_lines (trace s) @
        (if lastStatus s = connectivity inp s then [] else [SerialLine (connectivity inp s)])
    \<and> (\<not> millis_hb inp mod 1000 < 100 \<longrightarrow> lastStatus s' = connectivity inp s)"
proof -
  from assms have ok: "case datagram inp of None \<Rightarrow> True | Some d \<Rightarrow> length d < 255"
    and nr: "\<not> reset_low inp"
    by (simp_all add: completes_def)
  from receive_Inr [OF ok, of s]
  obtain s1 where s1: "receive inp s = Inr s1"
    and cl: "conn_lines (trace s1) = conn_lines (trace s)"
    and ls: "lastStatus s1 = lastStatus s"
    and tl: "timeLastPackageReceived s1 =
        (case datagram inp of
           None \<Rightarrow> timeLastPackageReceived s
         | Some d \<Rightarrow> if length d = 0 then timeLastPackageReceived s else micros_rx inp)"
    by auto
  have wd: "lastStatus (watchdog (micros_wd inp) s1) = connectivity inp s"
    by (simp add: watchdog_fields(3) connectivity_def tl)
  have "loop inp s =
      Inr (heartbeat (millis_hb inp) (wifi_send inp) (watchdog (micros_wd inp) s1))"
    using assms(2,3) nr s1 by (simp add: loop_def connected_body_def checkWiFiConnection_fields)
  moreover have "conn_lines (trace (heartbeat (millis_hb inp) (wifi_send inp)
        (watchdog (micros_wd inp) s1))) =
      conn_lines (trace s) @
        (if lastStatus s = connectivity inp s then [] else [SerialLine (connectivity inp s)])"
    by (simp add: heartbeat_fields(2) watchdog_fields(4) wd cl ls)
  moreover have "\<not> millis_hb inp mod 1000 < 100 \<longrightarrow>
      lastStatus (heartbeat (millis_hb inp) (wifi_send inp) (watchdog (micros_wd inp) s1)) =
        connectivity inp s"
    by (simp add: heartbeat_fields(3) wd)
  ultimately show ?thesis by simp
qed

text \<open>
  C7. The connectivity message should be printed once for a change of state and not
  again while the state is the same. Two iterations a millisecond apart, no packet, both
  CONNECTED: the heartbeat of the first leaves its own message in \<open>lastStatus\<close>, which
  \<open>logMessageOnce\<close> shares among all its callers, and the second iteration prints
  CONNECTED again.
\<close>

theorem connected_logged_again:
  "map_sum id trace
     (run [quiet\<lparr>micros_wd := 1000000, millis_hb := 1000\<rparr>,
           quiet\<lparr>micros_wd := 1001000, millis_hb := 1001\<rparr>] boot) =
   Inr [SerialLine ''CONNECTED'', UdpSend (tally_ho ''device-name''),
        SerialLine ''Sent status to hub'',
        SerialLine ''CONNECTED'', UdpSend (tally_ho ''device-name''),
        SerialLine ''Sent status to hub'']"
  by (simp add: loop_eval)

text \<open>
  C8. Two iterations 50 ms apart in the same second, WiFi up and both CONNECTED: each
  sends the heartbeat, two datagrams in one one-second window.
\<close>

theorem heartbeat_twice_in_one_second:
  "(2000 :: u32) div 1000 = 2050 div 1000
   \<and> map_sum id (sent \<circ> trace)
     (run [quiet\<lparr>micros_wd := 2000000, millis_hb := 2000\<rparr>,
           quiet\<lparr>micros_wd := 2050000, millis_hb := 2050\<rparr>] boot) =
   Inr [tally_ho ''device-name'', tally_ho ''device-name'']"
  by (simp add: loop_eval)

text \<open>
  C10. A datagram of 255 bytes: \<open>udp.read\<close> returns 255, the size of the buffer, and
  the terminator goes to \<open>incomingPacket[255]\<close>, one past its end.
\<close>

theorem terminator_store_out_of_bounds:
  "length (udp_read (replicate 255 (CHR ''A'')) 255) = 255
   \<and> \<not> 255 < incomingPacket_size
   \<and> receive (quiet\<lparr>datagram := Some (replicate 255 (CHR ''A''))\<rparr>) boot = Inl StoreOutOfBounds"
  by (simp add: receive_def udp_read_def quiet_def incomingPacket_size_def)

end
